theory Spec2Isabelle
  imports Complex_Main "HOL-Library.Sublist" "HOL-Library.Char_ord" "HOL-Library.List_Lexorder"
    "HOL-Library.Product_Lexorder"
begin

section \<open>ioBroker dev-server: source maps, file synchronisation and the admin proxy\<close>

text \<open>
  A shallow embedding of the class \<open>DevServer\<close> of \<open>src/index.ts\<close>: the methods
  \<open>patchSourcemap\<close>, \<open>createIdentitySourcemap\<close>, \<open>addSourcemap\<close>, the watcher
  callbacks of \<open>startFileSync\<close> and the two proxy routes of \<open>runServer\<close>.

  Conventions of the model.
  \<^item> The file system is a partial map from path to text; every file operation of the
    source that can throw returns a sum, \<open>Inl\<close> the error.
  \<^item> An \<open>async\<close> method is a state transformer that also returns its outcome: \<open>Inl e\<close>
    is a rejected promise (or a thrown exception), \<open>Inr x\<close> a fulfilled one. An awaited
    call runs to completion before the next statement; the interleaving of calls that
    the source does not await is not modelled.
  \<^item> Functions of Node.js and of the npm packages (\<open>path\<close>, \<open>JSON\<close>, \<open>acorn\<close>) are
    not part of the repository; they are parameters of the model, collected in the
    record \<open>env\<close>. The generator of \<open>source-map\<close> and the regular expressions of
    \<open>pathRewrite\<close> are modelled as far as the code uses them.
  \<^item> A JavaScript string is modelled as a \<open>string\<close>: its code units are restricted to
    the range of \<open>char\<close>.
\<close>

subsection \<open>JSON documents\<close>

text \<open>
  The value \<open>JSON.parse\<close> returns. An object keeps its properties in insertion order.
  Numbers are mathematical reals: the code only compares one with the literal 3.
\<close>

datatype json =
    JNull
  | JBool bool
  | JNum real
  | JStr string
  | JArr "json list"
  | JObj "(string \<times> json) list"

text \<open>
  \<open>obj[k] = v\<close> on an object: an existing property keeps its place and takes the new
  value, a new property is added after the others.
\<close>

fun set_prop :: "string \<Rightarrow> json \<Rightarrow> (string \<times> json) list \<Rightarrow> (string \<times> json) list" where
  "set_prop k v [] = [(k, v)]"
| "set_prop k v ((k', v') # props) =
     (if k' = k then (k, v) # props else (k', v') # set_prop k v props)"

subsection \<open>Errors, log and file system\<close>

datatype error =
    ENOENT string
  | EACCES string
  | SyntaxError
  | TypeError
  | UnsupportedVersion "json option"
    \<comment> \<open>\<open>new Error(`Unsupported sourcemap version: ${data.version}`)\<close>; \<open>None\<close> is \<open>undefined\<close>\<close>

datatype level = LError | LWarn | LNotice | LInfo | LDebug

text \<open>The messages of the methods modelled here, with their interpolated values.\<close>

datatype message =
    Synchronizing string              \<comment> \<open>\<open>`Synchronizing ${filename}`\<close>\<close>
  | Watching string                   \<comment> \<open>\<open>`Watching ${filename}`\<close>\<close>
  | Patched string string             \<comment> \<open>\<open>`Patched ${dest} from ${src}`\<close>\<close>
  | CouldntPatch string error         \<comment> \<open>\<open>`Couldn't patch ${dest}: ${error}`\<close>\<close>
  | Created string string             \<comment> \<open>\<open>`Created ${mapFile} from ${src}`\<close>\<close>
  | CouldntReverseMap string error    \<comment> \<open>\<open>`Couldn't reverse map for ${src}: ${error}`\<close>\<close>
  | CouldntSync string                \<comment> \<open>\<open>`Couldn't sync ${filename}`\<close>\<close>

text \<open>
  The world outside the process: the files, the paths on which the operating system
  refuses an operation (permissions, a missing parent directory), and the console.
\<close>

record world =
  files :: "string \<rightharpoonup> string"
  io_fault :: "string \<Rightarrow> bool"
  log :: "(level \<times> message) list"

type_synonym 'a io = "world \<Rightarrow> (error + 'a) \<times> world"

definition io_return :: "'a \<Rightarrow> 'a io" where
  "io_return x w = (Inr x, w)"

definition io_throw :: "error \<Rightarrow> 'a io" where
  "io_throw e w = (Inl e, w)"

text \<open>\<open>const x = await m; k(x)\<close>: a failure of \<open>m\<close> skips \<open>k\<close>.\<close>

definition io_bind :: "'a io \<Rightarrow> ('a \<Rightarrow> 'b io) \<Rightarrow> 'b io" where
  "io_bind m k w = (case m w of (Inl e, w') \<Rightarrow> (Inl e, w') | (Inr x, w') \<Rightarrow> k x w')"

text \<open>\<open>try { body } catch (error) { handler(error) }\<close>\<close>

definition try_catch :: "'a io \<Rightarrow> (error \<Rightarrow> 'a io) \<Rightarrow> 'a io" where
  "try_catch body handler w =
     (case body w of (Inl e, w') \<Rightarrow> handler e w' | (Inr x, w') \<Rightarrow> (Inr x, w'))"

definition log_msg :: "level \<Rightarrow> message \<Rightarrow> unit io" where
  "log_msg l m w = (Inr (), w\<lparr>log := log w @ [(l, m)]\<rparr>)"

definition existsSync :: "string \<Rightarrow> world \<Rightarrow> bool" where
  "existsSync p w = (files w p \<noteq> None)"

definition readFile :: "string \<Rightarrow> string io" where
  "readFile p w =
     (case files w p of
        None \<Rightarrow> (Inl (ENOENT p), w)
      | Some content \<Rightarrow> if io_fault w p then (Inl (EACCES p), w) else (Inr content, w))"

definition writeFile :: "string \<Rightarrow> string \<Rightarrow> unit io" where
  "writeFile p content w =
     (if io_fault w p then (Inl (EACCES p), w)
      else (Inr (), w\<lparr>files := (files w)(p \<mapsto> content)\<rparr>))"

definition copyFile :: "string \<Rightarrow> string \<Rightarrow> unit io" where
  "copyFile src dest = io_bind (readFile src) (\<lambda>content. writeFile dest content)"

definition unlinkSync :: "string \<Rightarrow> unit io" where
  "unlinkSync p w =
     (case files w p of
        None \<Rightarrow> (Inl (ENOENT p), w)
      | Some content \<Rightarrow>
          if io_fault w p then (Inl (EACCES p), w)
          else (Inr (), w\<lparr>files := (files w)(p := None)\<rparr>))"

subsection \<open>Tokens and source maps\<close>

record position =
  line :: nat
  column :: nat

record sourceLocation =
  loc_start :: position
  loc_end :: position

text \<open>An acorn token: \<open>token.type.label\<close> and \<open>token.loc\<close> (\<open>None\<close> when it is unset).\<close>

record token =
  label :: string
  loc :: "sourceLocation option"

record mapping =
  original :: position
  generated :: position
  source :: string

text \<open>
  The package \<open>source-map\<close> is not in the repository. Its \<open>SourceMapGenerator\<close> is
  modelled as far as \<open>createIdentitySourcemap\<close> uses it: the \<open>file\<close> it was created
  for, the sources in the order in which they were first named, the mappings in the
  order of the calls of \<open>addMapping\<close>, and whether each mapping was added at or after the
  generated position of the one before it. \<open>addMapping\<close> also checks its argument
  (lines from 1, columns from 0, a source that is not empty); the positions of acorn and
  the name of a file that was read pass this check, which is left out.
\<close>

record generator =
  gen_file :: string
  gen_sources :: "string list"
  mappings :: "mapping list"
  in_order :: bool

definition generated_position :: "mapping \<Rightarrow> nat \<times> nat" where
  "generated_position m = (line (generated m), column (generated m))"

definition addMapping :: "mapping \<Rightarrow> generator \<Rightarrow> generator" where
  "addMapping m g =
     g\<lparr>gen_sources := (if source m \<in> set (gen_sources g) then gen_sources g
                        else gen_sources g @ [source m]),
       mappings := mappings g @ [m],
       in_order := (in_order g \<and>
                    (mappings g = [] \<or>
                     generated_position (last (mappings g)) \<le> generated_position m))\<rparr>"

text \<open>
  \<open>generator.toJSON()\<close>. The serialiser takes the mappings in the order of their
  generated positions (then source, then original position), sorting them when one
  was added out of order, and writes a mapping that is equal to the one before it only
  once. The string of the field \<open>mappings\<close> of the result is represented by the list
  of the mappings it encodes.
\<close>

record rawSourceMap =
  map_version :: nat
  map_file :: string
  map_sources :: "string list"
  map_names :: "string list"
  map_mappings :: "mapping list"

definition mapping_key :: "mapping \<Rightarrow> nat \<times> nat \<times> string \<times> nat \<times> nat" where
  "mapping_key m =
     (line (generated m), column (generated m), source m, line (original m), column (original m))"

definition toArray :: "generator \<Rightarrow> mapping list" where
  "toArray g = (if in_order g then mappings g else sort_key mapping_key (mappings g))"

definition serializeMappings :: "generator \<Rightarrow> mapping list" where
  "serializeMappings g = remdups_adj (toArray g)"

definition toJSON :: "generator \<Rightarrow> rawSourceMap" where
  "toJSON g =
     \<lparr>map_version = 3, map_file = gen_file g, map_sources = gen_sources g, map_names = [],
      map_mappings = serializeMappings g\<rparr>"

subsection \<open>The environment\<close>

text \<open>
  The instance fields the methods read and the library functions they call.
  \<open>acorn_tokenizer\<close> gives, for a text, the results of the successive calls of
  \<open>getToken()\<close>: a token, or the \<open>SyntaxError\<close> it throws; past the end of the list
  the tokenizer returns the \<open>eof\<close> token. \<open>map_stringify\<close> is \<open>JSON.stringify\<close> on a
  source map.
\<close>

record env =
  rootDir :: string
  adapterName :: string
  path_join :: "string \<Rightarrow> string \<Rightarrow> string"
  path_dirname :: "string \<Rightarrow> string"
  path_basename :: "string \<Rightarrow> string"
  JSON_parse :: "string \<Rightarrow> json option"
  JSON_stringify :: "json \<Rightarrow> string"
  acorn_tokenizer :: "string \<Rightarrow> (error + token) list"
  map_stringify :: "rawSourceMap \<Rightarrow> string"

subsection \<open>Strings\<close>

text \<open>\<open>s.replace(/\\/g, '/')\<close>\<close>

definition slashes :: "string \<Rightarrow> string" where
  "slashes s = map (\<lambda>c. if c = CHR 0x5C then CHR ''/'' else c) s"

text \<open>\<open>s.endsWith(t)\<close>\<close>

definition endsWith :: "string \<Rightarrow> string \<Rightarrow> bool" where
  "endsWith s t = (length t \<le> length s \<and> drop (length s - length t) s = t)"

subsection \<open>\<open>patchSourcemap\<close>\<close>

text \<open>\<open>readJson\<close>: \<open>JSON.parse(fs.readFileSync(filename, 'utf-8'))\<close>\<close>

definition readJson :: "env \<Rightarrow> string \<Rightarrow> json io" where
  "readJson E filename =
     io_bind (readFile filename) (\<lambda>text.
       case JSON_parse E text of None \<Rightarrow> io_throw SyntaxError | Some data \<Rightarrow> io_return data)"

text \<open>
  \<open>if (data.version !== 3) throw ...\<close>: reading a property of \<open>null\<close> is a
  \<open>TypeError\<close>; a value that is not an object has no \<open>version\<close>; an object passes
  only with the number 3. What passes is an object, whose properties are returned.
\<close>

fun check_version :: "json \<Rightarrow> error + (string \<times> json) list" where
  "check_version JNull = Inl TypeError"
| "check_version (JObj props) =
     (if map_of props ''version'' \<noteq> Some (JNum 3)
      then Inl (UnsupportedVersion (map_of props ''version''))
      else Inr props)"
| "check_version _ = Inl (UnsupportedVersion None)"

text \<open>\<open>data.sourceRoot = path.dirname(src).replace(/\\/g, '/')\<close>\<close>

definition set_sourceRoot :: "env \<Rightarrow> string \<Rightarrow> (string \<times> json) list \<Rightarrow> (string \<times> json) list" where
  "set_sourceRoot E src props =
     set_prop ''sourceRoot'' (JStr (slashes (path_dirname E src))) props"

definition patchSourcemap :: "env \<Rightarrow> string \<Rightarrow> string \<Rightarrow> unit io" where
  "patchSourcemap E src dest =
     try_catch
       (io_bind (readJson E src) (\<lambda>data.
          case check_version data of
            Inl e \<Rightarrow> io_throw e
          | Inr props \<Rightarrow>
              io_bind (writeFile dest (JSON_stringify E (JObj (set_sourceRoot E src props)))) (\<lambda>_.
                log_msg LDebug (Patched dest src))))
       (\<lambda>error. log_msg LWarn (CouldntPatch dest error))"

subsection \<open>\<open>createIdentitySourcemap\<close>\<close>

text \<open>
  The loop \<open>while (true) { const token = tokenizer.getToken(); ... }\<close> over the
  results of \<open>getToken()\<close>: a throw leaves the method, the \<open>eof\<close> token or a token
  without \<open>loc\<close> ends the loop, any other token adds one mapping. The method returns
  \<open>generator.toJSON()\<close>.
\<close>

fun walk_tokens :: "string \<Rightarrow> (error + token) list \<Rightarrow> generator \<Rightarrow> error + generator" where
  "walk_tokens filename [] g = Inr g"
| "walk_tokens filename (Inl e # rest) g = Inl e"
| "walk_tokens filename (Inr tok # rest) g =
     (case loc tok of
        None \<Rightarrow> Inr g
      | Some l \<Rightarrow>
          if label tok = ''eof'' then Inr g
          else walk_tokens filename rest
                 (addMapping \<lparr>original = loc_start l, generated = loc_start l, source = filename\<rparr> g))"

definition createIdentitySourcemap :: "env \<Rightarrow> string \<Rightarrow> rawSourceMap io" where
  "createIdentitySourcemap E filename =
     io_bind (readFile filename) (\<lambda>fileContent.
       case walk_tokens filename (acorn_tokenizer E fileContent)
              \<lparr>gen_file = filename, gen_sources = [], mappings = [], in_order = True\<rparr> of
         Inl e \<Rightarrow> io_throw e
       | Inr generator \<Rightarrow> io_return (toJSON generator))"

subsection \<open>Token streams that reach the end of the text\<close>

text \<open>
  With the option \<open>locations: true\<close> every token carries its location. A token that
  is not \<open>eof\<close> is given by its label and its location; the mapping that
  \<open>createIdentitySourcemap\<close> adds for it has the start of the token on both sides.
\<close>

definition token_at :: "string \<times> sourceLocation \<Rightarrow> token" where
  "token_at = (\<lambda>(lbl, l). \<lparr>label = lbl, loc = Some l\<rparr>)"


subsection \<open>\<open>addSourcemap\<close>\<close>

text \<open>
  The regular expression \<open>/(\/\/\# sourceMappingURL=).+/\<close>: the literal, then one or
  more characters that are not line terminators, as many as there are.
\<close>

definition reference_prefix :: string where
  "reference_prefix = ''//# sourceMappingURL=''"

definition is_line_terminator :: "char \<Rightarrow> bool" where
  "is_line_terminator c = (c = CHR 0x0A \<or> c = CHR 0x0D)"

definition starts_with :: "string \<Rightarrow> string \<Rightarrow> bool" where
  "starts_with s t = (take (length t) s = t)"

text \<open>Does the expression match at the very start of \<open>s\<close>?\<close>

definition matches_here :: "string \<Rightarrow> bool" where
  "matches_here s =
     (starts_with s reference_prefix \<and>
      (case drop (length reference_prefix) s of [] \<Rightarrow> False | c # _ \<Rightarrow> \<not> is_line_terminator c))"

text \<open>
  The leftmost match: the text before it, the characters matched by \<open>.+\<close>, and the
  text after it.
\<close>

fun find_reference :: "string \<Rightarrow> (string \<times> string \<times> string) option" where
  "find_reference [] = None"
| "find_reference (c # cs) =
     (if matches_here (c # cs)
      then (let tail = drop (length reference_prefix) (c # cs)
            in Some ([], takeWhile (\<lambda>d. \<not> is_line_terminator d) tail,
                     dropWhile (\<lambda>d. \<not> is_line_terminator d) tail))
      else (case find_reference cs of
              None \<Rightarrow> None
            | Some (before, target, after) \<Rightarrow> Some (c # before, target, after)))"

text \<open>
  The replacement patterns of \<open>String.prototype.replace\<close> for an expression with one
  group: \<open>$$\<close>, \<open>$&\<close>, \<open>$`\<close>, \<open>$'\<close>, and \<open>$1\<close> or \<open>$01\<close> for the group; any other
  \<open>$\<close> stands for itself.
\<close>

fun substitute :: "string \<Rightarrow> string \<Rightarrow> string \<Rightarrow> string \<Rightarrow> string \<Rightarrow> string" where
  "substitute matched before after group1 [] = []"
| "substitute matched before after group1 [c] = [c]"
| "substitute matched before after group1 (c # d # rest) =
     (if c \<noteq> CHR ''$'' then c # substitute matched before after group1 (d # rest)
      else if d = CHR ''$'' then CHR ''$'' # substitute matched before after group1 rest
      else if d = CHR ''&'' then matched @ substitute matched before after group1 rest
      else if d = CHR 0x60 then before @ substitute matched before after group1 rest
      else if d = CHR 0x27 then after @ substitute matched before after group1 rest
      else if d = CHR ''1'' then group1 @ substitute matched before after group1 rest
      else if d = CHR ''0'' \<and> take 1 rest = ''1''
        then group1 @ substitute matched before after group1 (drop 1 rest)
      else c # substitute matched before after group1 (d # rest))"

text \<open>\<open>fileContent.replace(/(\/\/\# sourceMappingURL=).+/, `$1${filename}`)\<close>\<close>

definition replace_reference :: "string \<Rightarrow> string \<Rightarrow> string" where
  "replace_reference fileContent filename =
     (case find_reference fileContent of
        None \<Rightarrow> fileContent
      | Some (before, target, after) \<Rightarrow>
          before
          @ substitute (reference_prefix @ target) before after reference_prefix (''$1'' @ filename)
          @ after)"

text \<open>\<open>fileContent.match(/\r\n/)\<close>\<close>

fun contains_crlf :: "string \<Rightarrow> bool" where
  "contains_crlf (c # d # rest) = ((c = CHR 0x0D \<and> d = CHR 0x0A) \<or> contains_crlf (d # rest))"
| "contains_crlf _ = False"

text \<open>The content written to \<open>dest\<close>: lines 315 to 326 of \<open>src/index.ts\<close>.\<close>

definition updatedContent :: "string \<Rightarrow> string \<Rightarrow> string" where
  "updatedContent fileContent filename =
     (let updated = replace_reference fileContent filename
      in if updated = fileContent
         then (if \<not> endsWith fileContent [CHR 0x0A]
               then (if contains_crlf fileContent
                     then updated @ [CHR 0x0D] @ [CHR 0x0A]
                     else updated @ [CHR 0x0A])
               else updated)
              @ reference_prefix @ filename
         else updated)"

definition addSourcemap_body :: "env \<Rightarrow> string \<Rightarrow> string \<Rightarrow> bool \<Rightarrow> unit io" where
  "addSourcemap_body E src dest copyFromSrc =
     (let mapFile = dest @ ''.map''
      in io_bind (createIdentitySourcemap E (slashes src)) (\<lambda>data.
         io_bind (writeFile mapFile (map_stringify E data)) (\<lambda>_.
         io_bind (readFile (if copyFromSrc then src else dest)) (\<lambda>fileContent.
         io_bind (writeFile dest (updatedContent fileContent (path_basename E mapFile))) (\<lambda>_.
           log_msg LDebug (Created mapFile src))))))"

definition addSourcemap :: "env \<Rightarrow> string \<Rightarrow> string \<Rightarrow> bool \<Rightarrow> unit io" where
  "addSourcemap E src dest copyFromSrc =
     try_catch (addSourcemap_body E src dest copyFromSrc)
       (\<lambda>error. log_msg LWarn (CouldntReverseMap src error))"

subsection \<open>\<open>startFileSync\<close>\<close>

text \<open>The variables the watcher callbacks close over.\<close>

record session =
  ready :: bool
  ignoreFiles :: "string list"

definition inSrc :: "env \<Rightarrow> string \<Rightarrow> string" where
  "inSrc E filename = path_join E (rootDir E) filename"

definition inDest :: "env \<Rightarrow> string \<Rightarrow> string \<Rightarrow> string" where
  "inDest E destinationDir filename = path_join E destinationDir filename"

definition syncFile :: "env \<Rightarrow> string \<Rightarrow> string \<Rightarrow> unit io" where
  "syncFile E destinationDir filename =
     try_catch
       (io_bind (log_msg LDebug (Synchronizing filename)) (\<lambda>_.
          let src = inSrc E filename; dest = inDest E destinationDir filename
          in (\<lambda>w. if endsWith filename ''.map'' then patchSourcemap E src dest w
                  else if \<not> existsSync (inSrc E (filename @ ''.map'')) w
                    then addSourcemap E src dest True w
                  else copyFile src dest w)))
       (\<lambda>error. log_msg LWarn (CouldntSync filename))"

text \<open>
  The callbacks. \<open>syncFile(filename)\<close> is called without \<open>await\<close> and its promise is
  dropped, so only its effect on the world remains. \<open>unlink\<close> calls
  \<open>fs.unlinkSync\<close> outside any \<open>try\<close>.
\<close>

definition on_ready :: "session \<times> world \<Rightarrow> session \<times> world" where
  "on_ready = (\<lambda>(s, w). (s\<lparr>ready := True\<rparr>, w))"

definition on_add :: "env \<Rightarrow> string \<Rightarrow> string \<Rightarrow> session \<times> world \<Rightarrow> session \<times> world" where
  "on_add E destinationDir filename = (\<lambda>(s, w).
     if ready s then (s, snd (syncFile E destinationDir filename w))
     else if \<not> endsWith filename ''map'' \<and> \<not> existsSync (inDest E destinationDir filename) w
       then (s\<lparr>ignoreFiles := ignoreFiles s @ [filename]\<rparr>, w)
     else (s, snd (log_msg LDebug (Watching filename) w)))"

definition on_change :: "env \<Rightarrow> string \<Rightarrow> string \<Rightarrow> session \<times> world \<Rightarrow> session \<times> world" where
  "on_change E destinationDir filename = (\<lambda>(s, w).
     if filename \<notin> set (ignoreFiles s) then (s, snd (syncFile E destinationDir filename w))
     else (s, w))"

definition on_unlink :: "env \<Rightarrow> string \<Rightarrow> string \<Rightarrow> unit io" where
  "on_unlink E destinationDir filename =
     io_bind (unlinkSync (inDest E destinationDir filename)) (\<lambda>_.
       let map = inDest E destinationDir (filename @ ''.map'')
       in (\<lambda>w. if existsSync map w then unlinkSync map w else io_return () w))"

text \<open>
  The events of the watcher. An exception that leaves a callback is the result of the
  step; the session and the world stay as the callback left them.
\<close>

datatype event = Add string | Change string | Unlink string | Ready

fun handle :: "env \<Rightarrow> string \<Rightarrow> event \<Rightarrow> session \<times> world \<Rightarrow> (error + unit) \<times> session \<times> world" where
  "handle E destinationDir (Add filename) sw = (Inr (), on_add E destinationDir filename sw)"
| "handle E destinationDir (Change filename) sw = (Inr (), on_change E destinationDir filename sw)"
| "handle E destinationDir (Unlink filename) (s, w) =
     (case on_unlink E destinationDir filename w of (r, w') \<Rightarrow> (r, s, w'))"
| "handle E destinationDir Ready sw = (Inr (), on_ready sw)"

text \<open>
  A run of the watcher: the events in the order of their delivery. The program has no
  handler for an exception that leaves a callback; the run ends with it.
\<close>

fun run :: "env \<Rightarrow> string \<Rightarrow> event list \<Rightarrow> session \<times> world \<Rightarrow> error + session \<times> world" where
  "run E destinationDir [] sw = Inr sw"
| "run E destinationDir (ev # evs) sw =
     (case handle E destinationDir ev sw of
        (Inl e, sw') \<Rightarrow> Inl e
      | (Inr _, sw') \<Rightarrow> run E destinationDir evs sw')"

subsection \<open>The proxy routes of \<open>runServer\<close>\<close>

text \<open>
  One call of \<open>createProxyMiddleware(context, options)\<close>: the context patterns, the
  target, the \<open>ws\<close> option (off when the option is not given) and the \<open>pathRewrite\<close>
  table, from the source of a regular expression to its replacement.
\<close>

record route =
  patterns :: "string list"
  target :: string
  ws :: bool
  pathRewrite :: "(string \<times> string) list"

definition HIDDEN_ADMIN_PORT :: string where
  "HIDDEN_ADMIN_PORT = ''18881''"

definition HIDDEN_BROWSER_SYNC_PORT :: string where
  "HIDDEN_BROWSER_SYNC_PORT = ''18882''"

definition adminPattern :: "env \<Rightarrow> string" where
  "adminPattern E = ''/adapter/'' @ adapterName E @ ''/**''"

definition browser_sync_proxy :: "env \<Rightarrow> route" where
  "browser_sync_proxy E =
     \<lparr>patterns = [adminPattern E, ''/browser-sync/**''],
      target = ''http://localhost:'' @ HIDDEN_BROWSER_SYNC_PORT,
      ws = False,
      pathRewrite = [(''^/adapter/'' @ adapterName E @ ''/'', ''/'')]\<rparr>"

definition admin_proxy :: "env \<Rightarrow> route" where
  "admin_proxy E =
     \<lparr>patterns = [''!'' @ adminPattern E, ''!/browser-sync/**''],
      target = ''http://localhost:'' @ HIDDEN_ADMIN_PORT,
      ws = True,
      pathRewrite = []\<rparr>"

text \<open>The middlewares in the order of the calls of \<open>app.use\<close>.\<close>

definition routes :: "env \<Rightarrow> route list" where
  "routes E = [browser_sync_proxy E, admin_proxy E]"

text \<open>
  The keys of \<open>pathRewrite\<close> are sources of regular expressions: the proxy makes a
  \<open>RegExp\<close> of each key. The key \<open>^/adapter/${adapterName}/\<close> is built from the name
  as it is, so a character of the name with a meaning of its own in a regular
  expression keeps that meaning.

  The expressions modelled: \<open>^\<close>, then characters that stand for themselves and \<open>.\<close>
  (any character but a line terminator), each with at most one of the quantifiers
  \<open>*\<close>, \<open>+\<close>, \<open>?\<close>. For any other key (a group, a class, a brace, an alternative, a
  backslash, \<open>$\<close>, a lazy quantifier, no \<open>^\<close> in front) the model gives no result.
\<close>

definition regex_special :: "char \<Rightarrow> bool" where
  "regex_special c = (c \<in> set ''.*+?^$()[]{}|'' \<or> c = CHR 0x5C)"

definition is_quantifier :: "char \<Rightarrow> bool" where
  "is_quantifier c = (c \<in> set ''*+?'')"

datatype atom = Lit char | AnyChar

datatype item = One atom | Star atom | Plus atom | Opt atom

definition atom_of :: "char \<Rightarrow> atom option" where
  "atom_of c =
     (if c = CHR ''.'' then Some AnyChar else if regex_special c then None else Some (Lit c))"

definition quantified :: "char \<Rightarrow> atom \<Rightarrow> item" where
  "quantified q a = (if q = CHR ''*'' then Star a else if q = CHR ''+'' then Plus a else Opt a)"

fun parse_items :: "string \<Rightarrow> item list option" where
  "parse_items [] = Some []"
| "parse_items [c] = map_option (\<lambda>a. [One a]) (atom_of c)"
| "parse_items (c # q # rest) =
     (case atom_of c of
        None \<Rightarrow> None
      | Some a \<Rightarrow>
          if is_quantifier q then map_option (\<lambda>items. quantified q a # items) (parse_items rest)
          else map_option (\<lambda>items. One a # items) (parse_items (q # rest)))"

definition parse_key :: "string \<Rightarrow> item list option" where
  "parse_key key =
     (case key of [] \<Rightarrow> None | c # body \<Rightarrow> if c = CHR ''^'' then parse_items body else None)"

fun atom_matches :: "atom \<Rightarrow> char \<Rightarrow> bool" where
  "atom_matches (Lit d) c = (c = d)"
| "atom_matches AnyChar c = (\<not> is_line_terminator c)"

text \<open>
  The match of the items at the start of a text, as the backtracking of the engine
  finds it (a quantifier takes as much as it can first): the number of characters
  matched, or \<open>None\<close>.
\<close>

fun match_items :: "item list \<Rightarrow> string \<Rightarrow> nat option" where
  "match_items [] s = Some 0"
| "match_items (One a # items) [] = None"
| "match_items (One a # items) (c # cs) =
     (if atom_matches a c then map_option Suc (match_items items cs) else None)"
| "match_items (Opt a # items) [] = match_items items []"
| "match_items (Opt a # items) (c # cs) =
     (if atom_matches a c
      then (case match_items items cs of
              Some n \<Rightarrow> Some (Suc n)
            | None \<Rightarrow> match_items items (c # cs))
      else match_items items (c # cs))"
| "match_items (Star a # items) [] = match_items items []"
| "match_items (Star a # items) (c # cs) =
     (if atom_matches a c
      then (case match_items (Star a # items) cs of
              Some n \<Rightarrow> Some (Suc n)
            | None \<Rightarrow> match_items items (c # cs))
      else match_items items (c # cs))"
| "match_items (Plus a # items) [] = None"
| "match_items (Plus a # items) (c # cs) =
     (if atom_matches a c then map_option Suc (match_items (Star a # items) cs) else None)"

text \<open>
  The rewrite of the proxy: the first key whose expression matches the path decides,
  and \<open>path.replace(regex, value)\<close> puts the value in the place of the match. \<open>None\<close>
  when a key is outside the expressions modelled or the value has a replacement
  pattern.
\<close>

fun rewritePath :: "(string \<times> string) list \<Rightarrow> string \<Rightarrow> string option" where
  "rewritePath [] path = Some path"
| "rewritePath ((key, val) # rules) path =
     (case parse_key key of
        None \<Rightarrow> None
      | Some items \<Rightarrow>
          if CHR ''$'' \<in> set val then None
          else (case match_items items path of
                  Some n \<Rightarrow> Some (val @ drop n path)
                | None \<Rightarrow> rewritePath rules path))"

text \<open>
  Modelled from the spec: the context matcher of \<open>http-proxy-middleware\<close>, which
  decides with the globs of \<open>micromatch\<close> whether a route takes a request; neither
  package is in the repository. The spec reads the patterns of the first route as a
  path prefix for the adapter plus a fixed prefix, and those of the second route as the
  negation of both: \<open>prefix/**\<close> matches the paths below \<open>prefix/\<close>, a list of globs
  matches what one of them matches, and a list of negated globs matches what none of
  them matches.
\<close>

definition glob_below :: "string \<Rightarrow> string \<Rightarrow> bool" where
  "glob_below pattern path =
     (endsWith pattern ''/**'' \<and> starts_with path (take (length pattern - 2) pattern))"

definition context_match :: "string list \<Rightarrow> string \<Rightarrow> bool" where
  "context_match globs path =
     (if list_all (\<lambda>p. starts_with p ''!'') globs
      then list_all (\<lambda>p. \<not> glob_below (drop 1 p) path) globs
      else list_ex (\<lambda>p. glob_below p path) globs)"

text \<open>
  Modelled from the spec: the chain of middlewares of \<open>express\<close> and the forwarding
  of \<open>http-proxy-middleware\<close> and \<open>http-proxy\<close>, none of which is in the repository.
  The spec evaluates the two routes in their fixed order, the first match wins; the
  first route forwards to its origin after the rewrite of the path, the second
  forwards the path unmodified. A request that no route takes is left to \<open>next()\<close>.
  \<open>Unmodelled\<close> is the outcome when the rewrite is outside the expressions modelled.
\<close>

datatype outcome = Proxied string string | NotProxied | Unmodelled

fun forward :: "route list \<Rightarrow> string \<Rightarrow> outcome" where
  "forward [] path = NotProxied"
| "forward (r # rs) path =
     (if context_match (patterns r) path
      then (case rewritePath (pathRewrite r) path of
              None \<Rightarrow> Unmodelled
            | Some path' \<Rightarrow> Proxied (target r) path')
      else forward rs path)"

subsection \<open>A small installation\<close>

text \<open>
  An adapter \<open>demo\<close> in \<open>/repo\<close>, on a POSIX system. The functions of \<open>path\<close> are
  given for paths without \<open>.\<close> and \<open>..\<close> segments and without doubled or trailing
  slashes; \<open>JSON\<close> and \<open>acorn\<close> by their values on the texts that occur.
\<close>

definition quoted :: "string \<Rightarrow> string" where
  "quoted s = [CHR 0x22] @ s @ [CHR 0x22]"

definition map_v2_text :: string where
  "map_v2_text = ''{'' @ quoted ''version'' @ '':2,'' @ quoted ''sources'' @ '':[]}''"

definition map_v2 :: json where
  "map_v2 = JObj [(''version'', JNum 2), (''sources'', JArr [])]"

definition map_v3_text :: string where
  "map_v3_text = ''{'' @ quoted ''version'' @ '':3,'' @ quoted ''sourceRoot'' @ '':'' @ quoted [] @ ''}''"

definition map_v3 :: json where
  "map_v3 = JObj [(''version'', JNum 3), (''sourceRoot'', JStr [])]"

definition map_v3_patched_text :: string where
  "map_v3_patched_text =
     ''{'' @ quoted ''version'' @ '':3,'' @ quoted ''sourceRoot'' @ '':'' @ quoted ''/repo/build'' @ ''}''"

definition map_v3_patched :: json where
  "map_v3_patched = JObj [(''version'', JNum 3), (''sourceRoot'', JStr ''/repo/build'')]"

definition json_table :: "(string \<times> json) list" where
  "json_table =
     [(map_v2_text, map_v2), (map_v3_text, map_v3), (map_v3_patched_text, map_v3_patched)]"

definition demo_stringify :: "json \<Rightarrow> string" where
  "demo_stringify j = (case find (\<lambda>(t, j'). j' = j) json_table of Some (t, _) \<Rightarrow> t | None \<Rightarrow> [])"

definition pos :: "nat \<Rightarrow> nat \<Rightarrow> position" where
  "pos l c = \<lparr>line = l, column = c\<rparr>"

definition tok :: "string \<Rightarrow> nat \<Rightarrow> nat \<Rightarrow> nat \<Rightarrow> token" where
  "tok lbl l c c' = \<lparr>label = lbl, loc = Some \<lparr>loc_start = pos l c, loc_end = pos l c'\<rparr>\<rparr>"

text \<open>
  \<open>x = 1\<close> gives three tokens and \<open>eof\<close>; in \<open>broken_text\<close>, an assignment of a
  string that is never closed, the tokenizer throws at the string; \<open>template_text\<close>,
  an assignment of an empty template, gives five tokens and \<open>eof\<close>, the empty chunk
  of the template and the closing backquote both starting at column 5.
\<close>

definition broken_text :: string where
  "broken_text = ''x = '' @ [CHR 0x22] @ ''abc''"

definition template_text :: string where
  "template_text = ''x = '' @ [CHR 0x60, CHR 0x60]"

definition token_table :: "(string \<times> (error + token) list) list" where
  "token_table =
     [(''x = 1'', [Inr (tok ''name'' 1 0 1), Inr (tok ''='' 1 2 3), Inr (tok ''num'' 1 4 5),
                   Inr (tok ''eof'' 1 5 5)]),
      (broken_text, [Inr (tok ''name'' 1 0 1), Inr (tok ''='' 1 2 3), Inl SyntaxError]),
      (template_text, [Inr (tok ''name'' 1 0 1), Inr (tok ''='' 1 2 3), Inr (tok [CHR 0x60] 1 4 5),
                       Inr (tok ''template'' 1 5 5), Inr (tok [CHR 0x60] 1 5 6),
                       Inr (tok ''eof'' 1 6 6)])]"

definition demo_tokenizer :: "string \<Rightarrow> (error + token) list" where
  "demo_tokenizer text = (case map_of token_table text of Some ts \<Rightarrow> ts | None \<Rightarrow> [Inl SyntaxError])"

definition demo_basename :: "string \<Rightarrow> string" where
  "demo_basename p = rev (takeWhile (\<lambda>c. c \<noteq> CHR ''/'') (rev p))"

definition demo_dirname :: "string \<Rightarrow> string" where
  "demo_dirname p = rev (drop 1 (dropWhile (\<lambda>c. c \<noteq> CHR ''/'') (rev p)))"

definition demo_env :: env where
  "demo_env =
     \<lparr>rootDir = ''/repo'',
      adapterName = ''demo'',
      path_join = (\<lambda>d f. d @ ''/'' @ f),
      path_dirname = demo_dirname,
      path_basename = demo_basename,
      JSON_parse = map_of json_table,
      JSON_stringify = demo_stringify,
      acorn_tokenizer = demo_tokenizer,
      map_stringify = (\<lambda>m. ''identity map of '' @ map_file m)\<rparr>"

definition demo_dest :: string where
  "demo_dest = ''/repo/.devserver/node_modules/iobroker.demo''"

definition world_of :: "(string \<times> string) list \<Rightarrow> world" where
  "world_of fs = \<lparr>files = map_of fs, io_fault = (\<lambda>p. False), log = []\<rparr>"

definition watching :: session where
  "watching = \<lparr>ready = False, ignoreFiles = []\<rparr>"

text \<open>Worlds of the installation, and the session before the watcher is ready.\<close>

definition installed_world :: world where
  "installed_world =
     world_of [(''/repo/main.js'', ''x = 1''), (demo_dest @ ''/main.js'', ''x = 0'')]"

definition new_file_world :: world where
  "new_file_world = world_of [(''/repo/lib/new.js'', ''x = 1'')]"

definition broken_world :: world where
  "broken_world =
     world_of [(''/repo/main.js'', broken_text), (demo_dest @ ''/main.js'', ''x = 0'')]"


text \<open>The same installation for an adapter named \<open>a+b\<close> (\<open>--adapter a+b\<close>).\<close>

definition plus_env :: env where
  "plus_env = demo_env\<lparr>adapterName := ''a+b''\<rparr>"

definition v2_world :: world where
  "v2_world = world_of [(''/repo/build/main.js.map'', map_v2_text)]"

definition v3_world :: world where
  "v3_world = world_of [(''/repo/build/main.js.map'', map_v3_text)]"

definition mirrored_world :: world where
  "mirrored_world =
     world_of [(demo_dest @ ''/main.js'', ''x = 1''),
               (demo_dest @ ''/main.js.map'', ''identity map of /repo/main.js'')]"

text \<open>The installation did not leave the directory of the map writable.\<close>

definition readonly_world :: world where
  "readonly_world = installed_world\<lparr>io_fault := (\<lambda>p. p = demo_dest @ ''/main.js.map'')\<rparr>"

text \<open>
  The session after the initial scan has found \<open>lib/new.js\<close>, which the
  installation did not copy, and the watcher has become ready.
\<close>

definition excluded :: "session \<times> world" where
  "excluded = on_ready (on_add demo_env demo_dest ''lib/new.js'' (watching, new_file_world))"

section \<open>Properties\<close>

subsection \<open>Strings and objects\<close>

lemma endsWith_tail: "endsWith s (c # t) \<Longrightarrow> endsWith s t"
proof -
  assume a: "endsWith s (c # t)"
  then have l: "Suc (length t) \<le> length s" and d: "drop (length s - Suc (length t)) s = c # t"
    by (simp_all add: endsWith_def)
  have "length s - length t = Suc (length s - Suc (length t))"
    using l by simp
  then have "drop (length s - length t) s = tl (drop (length s - Suc (length t)) s)"
    by (simp add: drop_Suc tl_drop)
  with d l show ?thesis by (simp add: endsWith_def)
qed

lemma starts_with_take: "starts_with p t \<Longrightarrow> n \<le> length t \<Longrightarrow> take n p = take n t"
proof -
  assume a: "starts_with p t" and n: "n \<le> length t"
  have "take n p = take n (take (length t) p)" using n by (simp add: min_def)
  with a show ?thesis by (simp add: starts_with_def)
qed

lemma map_of_set_prop:
  "map_of (set_prop k v props) k' = (if k' = k then Some v else map_of props k')"
  by (induction props) auto

lemma set_prop_idem: "set_prop k v (set_prop k v props) = set_prop k v props"
  by (induction props) auto

lemma check_version_Inr:
  "check_version data = Inr props \<longleftrightarrow> data = JObj props \<and> map_of props ''version'' = Some (JNum 3)"
  by (cases data) auto

subsection \<open>The log only grows\<close>

lemma log_io_bind:
  assumes "\<And>w. prefix (log w) (log (snd (m w)))"
    and "\<And>x w. prefix (log w) (log (snd (k x w)))"
  shows "prefix (log w) (log (snd (io_bind m k w)))"
proof (cases "m w")
  case (Pair r w1)
  have p1: "prefix (log w) (log w1)" using assms(1) [of w] Pair by simp
  show ?thesis
  proof (cases r)
    case (Inl e)
    with Pair p1 show ?thesis by (simp add: io_bind_def)
  next
    case (Inr x)
    have "prefix (log w1) (log (snd (k x w1)))" by (rule assms(2))
    with p1 have "prefix (log w) (log (snd (k x w1)))" by (rule prefix_order.trans)
    with Pair Inr show ?thesis by (simp add: io_bind_def)
  qed
qed

lemma log_try_catch:
  assumes "\<And>w. prefix (log w) (log (snd (m w)))"
    and "\<And>e w. prefix (log w) (log (snd (h e w)))"
  shows "prefix (log w) (log (snd (try_catch m h w)))"
proof (cases "m w")
  case (Pair r w1)
  have p1: "prefix (log w) (log w1)" using assms(1) [of w] Pair by simp
  show ?thesis
  proof (cases r)
    case (Inl e)
    have "prefix (log w1) (log (snd (h e w1)))" by (rule assms(2))
    with p1 have "prefix (log w) (log (snd (h e w1)))" by (rule prefix_order.trans)
    with Pair Inl show ?thesis by (simp add: try_catch_def)
  next
    case (Inr x)
    with Pair p1 show ?thesis by (simp add: try_catch_def)
  qed
qed

lemma log_readFile: "prefix (log w) (log (snd (readFile p w)))"
  by (simp add: readFile_def split: option.splits)

lemma log_writeFile: "prefix (log w) (log (snd (writeFile p c w)))"
  by (simp add: writeFile_def)

lemma log_log_msg: "prefix (log w) (log (snd (log_msg l m w)))"
  by (simp add: log_msg_def)

lemma log_io_throw: "prefix (log w) (log (snd (io_throw e w)))"
  by (simp add: io_throw_def)

lemma log_io_return: "prefix (log w) (log (snd (io_return x w)))"
  by (simp add: io_return_def)

lemmas log_rules =
  log_io_bind log_try_catch log_readFile log_writeFile log_log_msg log_io_throw log_io_return

lemma log_copyFile: "prefix (log w) (log (snd (copyFile src dest w)))"
  unfolding copyFile_def by (intro log_rules)

lemma log_readJson: "prefix (log w) (log (snd (readJson E p w)))"
  unfolding readJson_def by (intro log_rules) (simp add: log_rules split: option.splits)

lemma log_patchSourcemap: "prefix (log w) (log (snd (patchSourcemap E src dest w)))"
  unfolding patchSourcemap_def
  by (intro log_rules log_readJson) (auto intro!: log_rules split: sum.splits)

lemma log_createIdentitySourcemap: "prefix (log w) (log (snd (createIdentitySourcemap E p w)))"
  unfolding createIdentitySourcemap_def
  by (intro log_rules) (auto intro!: log_rules split: sum.splits)

lemma log_addSourcemap: "prefix (log w) (log (snd (addSourcemap E src dest c w)))"
  unfolding addSourcemap_def addSourcemap_body_def Let_def
  by (intro log_rules log_createIdentitySourcemap)

text \<open>Every call of \<open>syncFile\<close> shows in the log: it starts with \<open>Synchronizing\<close>.\<close>

lemma syncFile_announces:
  "prefix (log w @ [(LDebug, Synchronizing f)]) (log (snd (syncFile E d f w)))"
proof -
  define w1 where "w1 = w\<lparr>log := log w @ [(LDebug, Synchronizing f)]\<rparr>"
  define k where "k = (\<lambda>w. if endsWith f ''.map'' then patchSourcemap E (inSrc E f) (inDest E d f) w
                  else if \<not> existsSync (inSrc E (f @ ''.map'')) w
                    then addSourcemap E (inSrc E f) (inDest E d f) True w
                  else copyFile (inSrc E f) (inDest E d f) w)"
  have k: "prefix (log w') (log (snd (k w')))" for w'
    by (simp add: k_def log_patchSourcemap log_addSourcemap log_copyFile)
  have l1: "log w1 = log w @ [(LDebug, Synchronizing f)]"
    by (simp add: w1_def)
  have s: "syncFile E d f w = try_catch k (\<lambda>error. log_msg LWarn (CouldntSync f)) w1"
    by (simp add: syncFile_def try_catch_def io_bind_def log_msg_def Let_def k_def w1_def)
  have "prefix (log w1) (log (snd (try_catch k (\<lambda>error. log_msg LWarn (CouldntSync f)) w1)))"
    by (rule log_try_catch) (rule k, rule log_log_msg)
  with s l1 show ?thesis by simp
qed

subsection \<open>The exclusion list\<close>

text \<open>No callback removes a path from \<open>ignoreFiles\<close>.\<close>

lemma ignoreFiles_handle:
  "f \<in> set (ignoreFiles (fst sw)) \<Longrightarrow> f \<in> set (ignoreFiles (fst (snd (handle E d ev sw))))"
  by (cases ev; cases sw) (auto simp add: on_add_def on_change_def on_ready_def split: prod.splits)

lemma ignoreFiles_run:
  "run E d evs sw = Inr sw' \<Longrightarrow> f \<in> set (ignoreFiles (fst sw)) \<Longrightarrow> f \<in> set (ignoreFiles (fst sw'))"
proof (induction evs arbitrary: sw)
  case Nil
  then show ?case by simp
next
  case (Cons ev evs)
  obtain r sw1 where h: "handle E d ev sw = (r, sw1)" by (cases "handle E d ev sw")
  with Cons.prems(1) have "run E d evs sw1 = Inr sw'" by (cases r) simp_all
  moreover have "f \<in> set (ignoreFiles (fst sw1))"
    using ignoreFiles_handle [OF Cons.prems(2), of E d ev] h by simp
  ultimately show ?case by (rule Cons.IH)
qed

text \<open>After \<open>ready\<close>, an \<open>add\<close> event is synchronised whatever the list holds.\<close>

lemma on_add_ready:
  "ready s \<Longrightarrow> on_add E d filename (s, w) = (s, snd (syncFile E d filename w))"
  by (simp add: on_add_def)

text \<open>
  The scan of the installation: \<open>lib/new.js\<close> is put on the list, and a change of
  the file after \<open>ready\<close> leaves the destination without it, where a call of
  \<open>syncFile\<close> would have written the file with its reference comment.
\<close>

theorem excluded_change_counterexample:
  "ignoreFiles (fst excluded) = [''lib/new.js'']
   \<and> on_change demo_env demo_dest ''lib/new.js'' excluded = excluded
   \<and> files (snd (on_change demo_env demo_dest ''lib/new.js'' excluded)) (demo_dest @ ''/lib/new.js'') = None
   \<and> files (snd (syncFile demo_env demo_dest ''lib/new.js'' (snd excluded))) (demo_dest @ ''/lib/new.js'')
       = Some (''x = 1'' @ [CHR 0x0A] @ ''//# sourceMappingURL=new.js.map'')"
proof -
  have e: "excluded = (\<lparr>ready = True, ignoreFiles = [''lib/new.js'']\<rparr>, new_file_world)"
    by (simp add: excluded_def on_ready_def on_add_def watching_def endsWith_def existsSync_def inDest_def
        new_file_world_def world_of_def demo_env_def demo_dest_def)
  have c: "on_change demo_env demo_dest ''lib/new.js'' excluded = excluded"
    by (simp add: e on_change_def)
  have n: "files new_file_world (demo_dest @ ''/lib/new.js'') = None"
    by code_simp
  have s: "files (snd (syncFile demo_env demo_dest ''lib/new.js'' new_file_world)) (demo_dest @ ''/lib/new.js'')
       = Some (''x = 1'' @ [CHR 0x0A] @ ''//# sourceMappingURL=new.js.map'')"
    by code_simp
  show ?thesis using c n s by (simp add: e)
qed

text \<open>
  Claim C1, as the code has it. A path that an \<open>add\<close> event before \<open>ready\<close> has put on
  the exclusion list (the path does not end in \<open>map\<close> and has no file in the
  destination) is still on the list after any later events, and a \<open>change\<close> event
  for it does nothing: \<open>syncFile\<close> is not called, the session and the world stay as
  they are. A later \<open>change\<close> event does not end the exclusion.
\<close>

theorem excluded_file_not_synced_on_change:
  assumes "\<not> ready s" and "\<not> endsWith filename ''map''"
    and "\<not> existsSync (inDest E d filename) w"
    and "run E d evs (on_add E d filename (s, w)) = Inr (s', w')"
  shows "filename \<in> set (ignoreFiles s') \<and> on_change E d filename (s', w') = (s', w')"
proof -
  have "filename \<in> set (ignoreFiles (fst (on_add E d filename (s, w))))"
    using assms(1-3) by (simp add: on_add_def)
  with assms(4) have "filename \<in> set (ignoreFiles (fst (s', w')))" by (rule ignoreFiles_run)
  then show ?thesis by (simp add: on_change_def)
qed

theorem excluded_file_not_synced_on_change_witness:
  "\<not> ready watching \<and> \<not> endsWith ''lib/new.js'' ''map''
   \<and> \<not> existsSync (inDest demo_env demo_dest ''lib/new.js'') new_file_world
   \<and> run demo_env demo_dest [Ready] (on_add demo_env demo_dest ''lib/new.js'' (watching, new_file_world))
        = Inr (\<lparr>ready = True, ignoreFiles = [''lib/new.js'']\<rparr>, new_file_world)
   \<and> ''lib/new.js'' \<in> set (ignoreFiles \<lparr>ready = True, ignoreFiles = [''lib/new.js'']\<rparr>)
   \<and> on_change demo_env demo_dest ''lib/new.js'' (\<lparr>ready = True, ignoreFiles = [''lib/new.js'']\<rparr>, new_file_world)
        = (\<lparr>ready = True, ignoreFiles = [''lib/new.js'']\<rparr>, new_file_world)"
proof -
  have h1: "\<not> ready watching" by (simp add: watching_def)
  have h2: "\<not> endsWith ''lib/new.js'' ''map''" by code_simp
  have h3: "\<not> existsSync (inDest demo_env demo_dest ''lib/new.js'') new_file_world" by code_simp
  have h4: "run demo_env demo_dest [Ready] (on_add demo_env demo_dest ''lib/new.js'' (watching, new_file_world))
        = Inr (\<lparr>ready = True, ignoreFiles = [''lib/new.js'']\<rparr>, new_file_world)"
    using h1 h2 h3 by (simp add: on_add_def on_ready_def watching_def)
  from excluded_file_not_synced_on_change [OF h1 h2 h3 h4] h1 h2 h3 h4 show ?thesis by blast
qed

subsection \<open>\<open>patchSourcemap\<close> and the version of the map\<close>

lemma readJson_v2_world:
  "readJson demo_env ''/repo/build/main.js.map'' v2_world
     = (Inr (JObj [(''version'', JNum 2), (''sources'', JArr [])]), v2_world)"
  by (simp add: readJson_def io_bind_def readFile_def v2_world_def world_of_def demo_env_def
      json_table_def io_return_def map_v2_def)

text \<open>
  A map of version 2: the call is fulfilled, not rejected. The \<open>Error\<close> thrown for the
  version is caught inside \<open>patchSourcemap\<close> and ends as a warning in the log.
\<close>

theorem patchSourcemap_version_counterexample:
  "fst (patchSourcemap demo_env ''/repo/build/main.js.map'' (demo_dest @ ''/build/main.js.map'') v2_world)
     = Inr ()
   \<and> fst (patchSourcemap demo_env ''/repo/build/main.js.map'' (demo_dest @ ''/build/main.js.map'') v2_world)
     \<noteq> Inl (UnsupportedVersion (Some (JNum 2)))
   \<and> log (snd (patchSourcemap demo_env ''/repo/build/main.js.map'' (demo_dest @ ''/build/main.js.map'') v2_world))
     = [(LWarn, CouldntPatch (demo_dest @ ''/build/main.js.map'') (UnsupportedVersion (Some (JNum 2))))]"
proof -
  have "log v2_world = []" by (simp add: v2_world_def world_of_def)
  then show ?thesis
    by (simp add: patchSourcemap_def try_catch_def io_bind_def io_throw_def log_msg_def readJson_v2_world)
qed

text \<open>
  Claim C2, as the code has it. For every source-map document whose \<open>version\<close> is not
  the number 3, \<open>patchSourcemap\<close> writes nothing: the files are unchanged. The
  unsupported-version error does not reach the caller; it is caught in
  \<open>patchSourcemap\<close> and logged as the warning \<open>Couldn't patch\<close>, and the call returns
  normally.
\<close>

theorem patchSourcemap_unsupported_version:
  assumes "files w src = Some text" and "\<not> io_fault w src"
    and "JSON_parse E text = Some (JObj props)"
    and "map_of props ''version'' \<noteq> Some (JNum 3)"
  shows "patchSourcemap E src dest w =
           (Inr (), w\<lparr>log := log w @
              [(LWarn, CouldntPatch dest (UnsupportedVersion (map_of props ''version'')))]\<rparr>)
       \<and> files (snd (patchSourcemap E src dest w)) = files w"
  using assms
  by (simp add: patchSourcemap_def try_catch_def io_bind_def io_throw_def io_return_def log_msg_def
      readJson_def readFile_def)

theorem patchSourcemap_unsupported_version_witness:
  "files v2_world ''/repo/build/main.js.map'' = Some map_v2_text
   \<and> JSON_parse demo_env map_v2_text = Some (JObj [(''version'', JNum 2), (''sources'', JArr [])])
   \<and> patchSourcemap demo_env ''/repo/build/main.js.map'' (demo_dest @ ''/build/main.js.map'') v2_world
     = (Inr (), v2_world\<lparr>log := log v2_world @
          [(LWarn, CouldntPatch (demo_dest @ ''/build/main.js.map'') (UnsupportedVersion (Some (JNum 2))))]\<rparr>)
   \<and> files (snd (patchSourcemap demo_env ''/repo/build/main.js.map'' (demo_dest @ ''/build/main.js.map'') v2_world))
     = files v2_world"
proof -
  have h1: "files v2_world ''/repo/build/main.js.map'' = Some map_v2_text"
    by (simp add: v2_world_def world_of_def)
  have h2: "\<not> io_fault v2_world ''/repo/build/main.js.map''"
    by (simp add: v2_world_def world_of_def)
  have h3: "JSON_parse demo_env map_v2_text = Some (JObj [(''version'', JNum 2), (''sources'', JArr [])])"
    by (simp add: demo_env_def json_table_def map_v2_def)
  have h4: "map_of [(''version'', JNum 2), (''sources'', JArr [])] ''version'' \<noteq> Some (JNum 3)"
    by simp
  from patchSourcemap_unsupported_version
         [OF h1 h2 h3 h4, of "demo_dest @ ''/build/main.js.map''"] h1 h3
  show ?thesis by simp
qed

text \<open>A map of version 3 is written to the destination with the new \<open>sourceRoot\<close>.\<close>

lemma patchSourcemap_version_3:
  "files (snd (patchSourcemap demo_env ''/repo/build/main.js.map'' (demo_dest @ ''/build/main.js.map'') v3_world))
     (demo_dest @ ''/build/main.js.map'') = Some map_v3_patched_text
   \<and> log (snd (patchSourcemap demo_env ''/repo/build/main.js.map'' (demo_dest @ ''/build/main.js.map'') v3_world))
     = [(LDebug, Patched (demo_dest @ ''/build/main.js.map'') ''/repo/build/main.js.map'')]"
  by code_simp

text \<open>
  The other documents without version 3, \<open>null\<close> included, and a file that cannot be
  read or parsed: nothing is written either.
\<close>

lemma patchSourcemap_writes_only_version_3:
  assumes "files (snd (patchSourcemap E src dest w)) \<noteq> files w"
  shows "\<exists>props. readJson E src w = (Inr (JObj props), w) \<and> map_of props ''version'' = Some (JNum 3)"
proof -
  obtain r w1 where r: "readJson E src w = (r, w1)" by (cases "readJson E src w")
  have w1: "w1 = w"
    using r by (auto simp add: readJson_def io_bind_def readFile_def io_throw_def io_return_def
        split: option.splits if_splits)
  show ?thesis
  proof (cases r)
    case (Inl e)
    with r w1 assms show ?thesis
      by (simp add: patchSourcemap_def try_catch_def io_bind_def log_msg_def)
  next
    case (Inr data)
    show ?thesis
    proof (cases "check_version data")
      case (Inl e)
      with r w1 Inr assms show ?thesis
        by (simp add: patchSourcemap_def try_catch_def io_bind_def io_throw_def log_msg_def)
    next
      case Inr': (Inr props)
      then have "data = JObj props \<and> map_of props ''version'' = Some (JNum 3)"
        by (simp add: check_version_Inr)
      with r w1 Inr show ?thesis by simp
    qed
  qed
qed

text \<open>
  Claim C8. For every version-3 map document and source path, the document that
  \<open>patchSourcemap\<close> writes is again a version-3 document, and the rewrite of
  \<open>sourceRoot\<close> applied to it gives the same document: the rewrite is idempotent.
\<close>

theorem set_sourceRoot_idempotent:
  assumes "check_version data = Inr props"
  shows "check_version (JObj (set_sourceRoot E src props)) = Inr (set_sourceRoot E src props)
       \<and> set_sourceRoot E src (set_sourceRoot E src props) = set_sourceRoot E src props"
  using assms
  by (simp add: check_version_Inr set_sourceRoot_def map_of_set_prop set_prop_idem)

theorem set_sourceRoot_idempotent_witness:
  "check_version map_v3 = Inr [(''version'', JNum 3), (''sourceRoot'', JStr [])]
   \<and> set_sourceRoot demo_env ''/repo/build/main.js.map'' [(''version'', JNum 3), (''sourceRoot'', JStr [])]
      = [(''version'', JNum 3), (''sourceRoot'', JStr ''/repo/build'')]
   \<and> set_sourceRoot demo_env ''/repo/build/main.js.map''
        (set_sourceRoot demo_env ''/repo/build/main.js.map'' [(''version'', JNum 3), (''sourceRoot'', JStr [])])
      = [(''version'', JNum 3), (''sourceRoot'', JStr ''/repo/build'')]"
proof -
  have h: "check_version map_v3 = Inr [(''version'', JNum 3), (''sourceRoot'', JStr [])]"
    by (simp add: map_v3_def)
  have v: "set_sourceRoot demo_env ''/repo/build/main.js.map'' [(''version'', JNum 3), (''sourceRoot'', JStr [])]
      = [(''version'', JNum 3), (''sourceRoot'', JStr ''/repo/build'')]"
    by (simp add: set_sourceRoot_def demo_env_def demo_dirname_def slashes_def)
  show ?thesis
    using h v set_sourceRoot_idempotent [OF h, of demo_env "''/repo/build/main.js.map''"] by simp
qed

text \<open>
  Two calls with the same paths leave the files as one call does, when the map is not
  patched in place.
\<close>

lemma patchSourcemap_files:
  "files (snd (patchSourcemap E src dest w)) =
     (case readJson E src w of
        (Inr data, _) \<Rightarrow>
          (case check_version data of
             Inr props \<Rightarrow>
               if io_fault w dest then files w
               else (files w)(dest \<mapsto> JSON_stringify E (JObj (set_sourceRoot E src props)))
           | Inl e \<Rightarrow> files w)
      | (Inl e, _) \<Rightarrow> files w)"
  by (auto simp add: patchSourcemap_def try_catch_def io_bind_def io_throw_def io_return_def log_msg_def
      readJson_def readFile_def writeFile_def split: option.splits sum.splits prod.splits if_splits)

lemma patchSourcemap_io_fault: "io_fault (snd (patchSourcemap E src dest w)) = io_fault w"
  by (auto simp add: patchSourcemap_def try_catch_def io_bind_def io_throw_def io_return_def log_msg_def
      readJson_def readFile_def writeFile_def split: option.splits sum.splits prod.splits if_splits)

lemma readJson_depends:
  assumes "files w' src = files w src" and "io_fault w' = io_fault w"
  shows "fst (readJson E src w') = fst (readJson E src w)"
  using assms
  by (auto simp add: readJson_def io_bind_def readFile_def io_throw_def io_return_def
      split: option.splits)

lemma patchSourcemap_twice:
  assumes "src \<noteq> dest"
  shows "files (snd (patchSourcemap E src dest (snd (patchSourcemap E src dest w))))
         = files (snd (patchSourcemap E src dest w))"
proof -
  let ?w' = "snd (patchSourcemap E src dest w)"
  have f: "files ?w' src = files w src"
    using assms by (simp add: patchSourcemap_files split: prod.splits sum.splits)
  have "fst (readJson E src ?w') = fst (readJson E src w)"
    using f patchSourcemap_io_fault by (rule readJson_depends)
  then show ?thesis
    by (auto simp add: patchSourcemap_files [of E src dest ?w'] patchSourcemap_io_fault
        simp add: patchSourcemap_files [of E src dest w] split: prod.splits sum.splits)
qed

subsection \<open>The callbacks of the watcher\<close>

text \<open>
  Claim C6. For every \<open>add\<close> event before \<open>ready\<close> whose path is a map file or has a
  file in the destination, the callback only logs \<open>Watching\<close>: no file is copied or
  written, the content of every file is as before, and the exclusion list is as
  before.
\<close>

theorem on_add_before_ready_no_copy:
  assumes "\<not> ready s"
    and "endsWith filename ''.map'' \<or> existsSync (inDest E destinationDir filename) w"
  shows "on_add E destinationDir filename (s, w)
           = (s, w\<lparr>log := log w @ [(LDebug, Watching filename)]\<rparr>)
       \<and> files (snd (on_add E destinationDir filename (s, w))) = files w"
  using assms by (auto simp add: on_add_def log_msg_def dest: endsWith_tail)

theorem on_add_before_ready_no_copy_witness:
  "\<not> ready watching
   \<and> existsSync (inDest demo_env demo_dest ''main.js'') installed_world
   \<and> on_add demo_env demo_dest ''main.js'' (watching, installed_world)
       = (watching, installed_world\<lparr>log := log installed_world @ [(LDebug, Watching ''main.js'')]\<rparr>)
   \<and> files (snd (on_add demo_env demo_dest ''main.js'' (watching, installed_world))) (demo_dest @ ''/main.js'')
       = Some ''x = 0''"
proof -
  have r: "\<not> ready watching" by (simp add: watching_def)
  have e: "existsSync (inDest demo_env demo_dest ''main.js'') installed_world" by code_simp
  have f: "files installed_world (demo_dest @ ''/main.js'') = Some ''x = 0''" by code_simp
  from on_add_before_ready_no_copy [OF r disjI2, OF e] r e f show ?thesis by simp
qed

text \<open>
  Claim C10. A \<open>change\<close> event for a path that is not on the exclusion list is
  dispatched to \<open>syncFile\<close> whatever the \<open>ready\<close> flag says: the callback does not
  read the flag. The call shows in the log.
\<close>

theorem on_change_not_gated_on_ready:
  assumes "filename \<notin> set (ignoreFiles s)"
  shows "on_change E destinationDir filename (s, w) = (s, snd (syncFile E destinationDir filename w))
       \<and> prefix (log w @ [(LDebug, Synchronizing filename)])
                (log (snd (on_change E destinationDir filename (s, w))))"
  using assms by (simp add: on_change_def syncFile_announces)

theorem on_change_not_gated_on_ready_witness:
  "\<not> ready watching \<and> ''main.js'' \<notin> set (ignoreFiles watching)
   \<and> on_change demo_env demo_dest ''main.js'' (watching, installed_world)
       = (watching, snd (syncFile demo_env demo_dest ''main.js'' installed_world))
   \<and> prefix (log installed_world @ [(LDebug, Synchronizing ''main.js'')])
       (log (snd (on_change demo_env demo_dest ''main.js'' (watching, installed_world))))
   \<and> files (snd (syncFile demo_env demo_dest ''main.js'' installed_world)) (demo_dest @ ''/main.js'')
       = Some (''x = 1'' @ [CHR 0x0A] @ ''//# sourceMappingURL=main.js.map'')"
proof -
  have r: "\<not> ready watching" by (simp add: watching_def)
  have i: "''main.js'' \<notin> set (ignoreFiles watching)" by (simp add: watching_def)
  have f: "files (snd (syncFile demo_env demo_dest ''main.js'' installed_world)) (demo_dest @ ''/main.js'')
       = Some (''x = 1'' @ [CHR 0x0A] @ ''//# sourceMappingURL=main.js.map'')"
    by code_simp
  from on_change_not_gated_on_ready [OF i, of demo_env demo_dest installed_world] r i f
  show ?thesis by blast
qed

text \<open>
  Claim C5. For every \<open>unlink\<close> event: when the deletion of the file in the
  destination fails, the error leaves the callback and nothing else is done; when it
  succeeds, the map beside it is deleted if it exists and left alone, without an
  error, if it does not, so that afterwards the destination has neither.
\<close>

theorem on_unlink_removes_file_and_map:
  "(unlinkSync (inDest E d f) w = (Inl e, w') \<longrightarrow> on_unlink E d f w = (Inl e, w'))
 \<and> (files w (inDest E d f) \<noteq> None \<and> \<not> io_fault w (inDest E d f)
      \<and> (files w (inDest E d (f @ ''.map'')) \<noteq> None \<longrightarrow> \<not> io_fault w (inDest E d (f @ ''.map''))) \<longrightarrow>
    on_unlink E d f w =
      (Inr (), w\<lparr>files := (\<lambda>p. if p = inDest E d f \<or> p = inDest E d (f @ ''.map'')
                              then None else files w p)\<rparr>))"
  by (auto simp add: on_unlink_def io_bind_def unlinkSync_def existsSync_def io_return_def Let_def
      fun_eq_iff split: option.splits if_splits)

theorem on_unlink_removes_file_and_map_witness:
  "unlinkSync (inDest demo_env demo_dest ''gone.js'') mirrored_world
     = (Inl (ENOENT (demo_dest @ ''/gone.js'')), mirrored_world)
   \<and> on_unlink demo_env demo_dest ''gone.js'' mirrored_world
     = (Inl (ENOENT (demo_dest @ ''/gone.js'')), mirrored_world)
   \<and> files mirrored_world (demo_dest @ ''/main.js'') = Some ''x = 1''
   \<and> files mirrored_world (demo_dest @ ''/main.js.map'') = Some ''identity map of /repo/main.js''
   \<and> fst (on_unlink demo_env demo_dest ''main.js'' mirrored_world) = Inr ()
   \<and> files (snd (on_unlink demo_env demo_dest ''main.js'' mirrored_world)) (demo_dest @ ''/main.js'') = None
   \<and> files (snd (on_unlink demo_env demo_dest ''main.js'' mirrored_world)) (demo_dest @ ''/main.js.map'') = None"
proof -
  have j: "inDest demo_env dir f = dir @ ''/'' @ f" for dir f
    by (simp add: inDest_def demo_env_def)
  have u: "unlinkSync (inDest demo_env demo_dest ''gone.js'') mirrored_world
     = (Inl (ENOENT (demo_dest @ ''/gone.js'')), mirrored_world)"
    by (simp add: unlinkSync_def j mirrored_world_def world_of_def demo_dest_def)
  have a: "files mirrored_world (demo_dest @ ''/main.js'') = Some ''x = 1''" by code_simp
  have m: "files mirrored_world (demo_dest @ ''/main.js.map'') = Some ''identity map of /repo/main.js''"
    by code_simp
  have n: "io_fault mirrored_world = (\<lambda>p. False)" by (simp add: mirrored_world_def world_of_def)
  have h: "files mirrored_world (inDest demo_env demo_dest ''main.js'') \<noteq> None
           \<and> \<not> io_fault mirrored_world (inDest demo_env demo_dest ''main.js'')
           \<and> (files mirrored_world (inDest demo_env demo_dest (''main.js'' @ ''.map'')) \<noteq> None \<longrightarrow>
                \<not> io_fault mirrored_world (inDest demo_env demo_dest (''main.js'' @ ''.map'')))"
    using a n by (simp add: j)
  note failing = on_unlink_removes_file_and_map
      [of demo_env demo_dest "''gone.js''" mirrored_world "ENOENT (demo_dest @ ''/gone.js'')" mirrored_world,
       THEN conjunct1, rule_format, OF u]
  note removing = on_unlink_removes_file_and_map
      [of demo_env demo_dest "''main.js''" mirrored_world TypeError mirrored_world,
       THEN conjunct2, rule_format, OF h]
  show ?thesis using u failing a m removing by (simp add: j)
qed

text \<open>
  The second deletion is not guarded by a \<open>try\<close> either: when the map exists and its
  deletion fails, that error leaves the callback, after the file has been removed.
\<close>

lemma on_unlink_map_fails:
  assumes "files w (inDest E d f) \<noteq> None" and "\<not> io_fault w (inDest E d f)"
    and "inDest E d (f @ ''.map'') \<noteq> inDest E d f"
    and "files w (inDest E d (f @ ''.map'')) \<noteq> None" and "io_fault w (inDest E d (f @ ''.map''))"
  shows "on_unlink E d f w =
           (Inl (EACCES (inDest E d (f @ ''.map''))), w\<lparr>files := (files w)(inDest E d f := None)\<rparr>)"
  using assms
  by (auto simp add: on_unlink_def io_bind_def unlinkSync_def existsSync_def Let_def
      split: option.splits)

subsection \<open>\<open>createIdentitySourcemap\<close>\<close>


text \<open>A throw of the tokenizer before \<open>eof\<close> is the result of the walk.\<close>

lemma walk_tokens_throws:
  assumes "\<forall>(lbl, l) \<in> set tls. lbl \<noteq> ''eof''"
  shows "walk_tokens filename (map (\<lambda>t. Inr (token_at t)) tls @ Inl e # rest) g = Inl e"
  using assms
proof (induction tls arbitrary: g)
  case Nil
  then show ?case by simp
next
  case (Cons t tls)
  obtain lbl l where t: "t = (lbl, l)" by (cases t)
  with Cons.prems have "lbl \<noteq> ''eof''" by simp
  moreover have "\<forall>(lbl, l) \<in> set tls. lbl \<noteq> ''eof''" using Cons.prems by simp
  ultimately show ?case using Cons.IH t by (simp add: token_at_def)
qed

lemma createIdentitySourcemap_lexical_error:
  assumes "files w filename = Some text" and "\<not> io_fault w filename"
    and "acorn_tokenizer E text = map (\<lambda>t. Inr (token_at t)) tls @ Inl e # rest"
    and "\<forall>(lbl, l) \<in> set tls. lbl \<noteq> ''eof''"
  shows "createIdentitySourcemap E filename w = (Inl e, w)"
  using assms(1-3) walk_tokens_throws [OF assms(4)]
  by (simp add: createIdentitySourcemap_def io_bind_def readFile_def io_throw_def)

text \<open>
  A text with a string that is never closed: the tokenizer throws, and
  \<open>createIdentitySourcemap\<close> produces no map.
\<close>

lemma createIdentitySourcemap_unterminated_string:
  "files broken_world (slashes ''/repo/main.js'') = Some broken_text
   \<and> createIdentitySourcemap demo_env (slashes ''/repo/main.js'') broken_world
       = (Inl SyntaxError, broken_world)"
proof -
  have f: "files broken_world (slashes ''/repo/main.js'') = Some broken_text" by code_simp
  have n: "\<not> io_fault broken_world (slashes ''/repo/main.js'')" by code_simp
  have t: "walk_tokens (slashes ''/repo/main.js'') (acorn_tokenizer demo_env broken_text)
             \<lparr>gen_file = slashes ''/repo/main.js'', gen_sources = [], mappings = [], in_order = True\<rparr>
           = Inl SyntaxError"
    by code_simp
  show ?thesis using f n t
    by (simp add: createIdentitySourcemap_def io_bind_def readFile_def io_throw_def)
qed









text \<open>
  When the tokens come in the order of the text, as acorn gives them, the serialiser
  does not reorder: the mappings of the map are those of the tokens with each run of
  equal mappings written once.
\<close>

lemma serializeMappings_in_order:
  "sorted (map mapping_key (mappings g)) \<Longrightarrow> serializeMappings g = remdups_adj (mappings g)"
  by (simp add: serializeMappings_def toArray_def sort_key_id_if_sorted)

subsection \<open>\<open>addSourcemap\<close>\<close>

text \<open>The three ways in which the pipeline of \<open>addSourcemap\<close> fails.\<close>

lemma addSourcemap_body_fails_reading:
  "addSourcemap_body demo_env ''/repo/gone.js'' (demo_dest @ ''/gone.js'') True installed_world
     = (Inl (ENOENT ''/repo/gone.js''), installed_world)"
  by (simp add: addSourcemap_body_def Let_def io_bind_def createIdentitySourcemap_def readFile_def
      slashes_def installed_world_def world_of_def demo_dest_def)

lemma addSourcemap_body_fails_tokenizing:
  "addSourcemap_body demo_env ''/repo/main.js'' (demo_dest @ ''/main.js'') True broken_world
     = (Inl SyntaxError, broken_world)"
  by (simp add: addSourcemap_body_def Let_def io_bind_def createIdentitySourcemap_def readFile_def
      slashes_def broken_world_def world_of_def demo_env_def demo_tokenizer_def token_table_def tok_def
      addMapping_def io_throw_def broken_text_def)

lemma addSourcemap_body_fails_writing:
  "addSourcemap_body demo_env ''/repo/main.js'' (demo_dest @ ''/main.js'') True readonly_world
     = (Inl (EACCES (demo_dest @ ''/main.js.map'')), readonly_world)"
  by (simp add: addSourcemap_body_def Let_def io_bind_def createIdentitySourcemap_def readFile_def
      slashes_def readonly_world_def installed_world_def world_of_def demo_env_def demo_tokenizer_def
      token_table_def tok_def addMapping_def io_return_def writeFile_def broken_text_def)

text \<open>
  Claim C7. For every input, the call of \<open>addSourcemap\<close> is fulfilled: no error of its
  pipeline reaches the caller. When the pipeline fails, the error is logged as the
  warning \<open>Couldn't reverse map\<close>, after what the pipeline had done before.
\<close>

theorem addSourcemap_never_rejects:
  "fst (addSourcemap E src dest copyFromSrc w) = Inr () \<and>
   (\<forall>e w'. addSourcemap_body E src dest copyFromSrc w = (Inl e, w') \<longrightarrow>
      snd (addSourcemap E src dest copyFromSrc w)
        = w'\<lparr>log := log w' @ [(LWarn, CouldntReverseMap src e)]\<rparr>)"
  by (auto simp add: addSourcemap_def try_catch_def log_msg_def split: prod.splits sum.splits)

theorem addSourcemap_never_rejects_witness:
  "addSourcemap_body demo_env ''/repo/main.js'' (demo_dest @ ''/main.js'') True broken_world
     = (Inl SyntaxError, broken_world)
   \<and> fst (addSourcemap demo_env ''/repo/main.js'' (demo_dest @ ''/main.js'') True broken_world) = Inr ()
   \<and> snd (addSourcemap demo_env ''/repo/main.js'' (demo_dest @ ''/main.js'') True broken_world)
     = broken_world\<lparr>log := log broken_world @ [(LWarn, CouldntReverseMap ''/repo/main.js'' SyntaxError)]\<rparr>"
proof -
  note t = addSourcemap_never_rejects
             [of demo_env "''/repo/main.js''" "demo_dest @ ''/main.js''" True broken_world]
  from t have a: "fst (addSourcemap demo_env ''/repo/main.js'' (demo_dest @ ''/main.js'') True broken_world) = Inr ()"
    by (rule conjunct1)
  from t [THEN conjunct2, rule_format, OF addSourcemap_body_fails_tokenizing]
  have b: "snd (addSourcemap demo_env ''/repo/main.js'' (demo_dest @ ''/main.js'') True broken_world)
     = broken_world\<lparr>log := log broken_world @ [(LWarn, CouldntReverseMap ''/repo/main.js'' SyntaxError)]\<rparr>" .
  from addSourcemap_body_fails_tokenizing a b show ?thesis by blast
qed

text \<open>The callers of \<open>addSourcemap\<close> go on: \<open>syncFile\<close> is fulfilled as well.\<close>

lemma syncFile_never_rejects: "fst (syncFile E d f w) = Inr ()"
  by (auto simp add: syncFile_def try_catch_def io_bind_def log_msg_def Let_def
      split: prod.splits sum.splits)

lemma replace_reference_none: "find_reference c = None \<Longrightarrow> replace_reference c fn = c"
  by (simp add: replace_reference_def)

text \<open>
  Claim C9. For every file content in which the expression for the reference comment
  finds nothing and which does not end in a line feed, the content written is the
  file content, a line break and the comment \<open>//# sourceMappingURL=<filename>\<close>; the
  line break is CR LF when the content has a CR LF in it, and LF when it has none.
\<close>

theorem updatedContent_line_ending:
  assumes "find_reference fileContent = None" and "\<not> endsWith fileContent [CHR 0x0A]"
  shows "updatedContent fileContent filename =
           fileContent @ (if contains_crlf fileContent then [CHR 0x0D, CHR 0x0A] else [CHR 0x0A])
             @ ''//# sourceMappingURL='' @ filename"
  using assms by (simp add: updatedContent_def replace_reference_none reference_prefix_def)

theorem updatedContent_line_ending_witness:
  "updatedContent (''x = 1;'' @ [CHR 0x0D, CHR 0x0A] @ ''y = 2'') ''main.js.map''
     = ''x = 1;'' @ [CHR 0x0D, CHR 0x0A] @ ''y = 2'' @ [CHR 0x0D, CHR 0x0A] @ ''//# sourceMappingURL=main.js.map''
   \<and> updatedContent (''x = 1;'' @ [CHR 0x0A] @ ''y = 2'') ''main.js.map''
     = ''x = 1;'' @ [CHR 0x0A] @ ''y = 2'' @ [CHR 0x0A] @ ''//# sourceMappingURL=main.js.map''"
proof -
  have c1: "find_reference (''x = 1;'' @ [CHR 0x0D, CHR 0x0A] @ ''y = 2'') = None" by code_simp
  have c2: "\<not> endsWith (''x = 1;'' @ [CHR 0x0D, CHR 0x0A] @ ''y = 2'') [CHR 0x0A]" by code_simp
  have c3: "contains_crlf (''x = 1;'' @ [CHR 0x0D, CHR 0x0A] @ ''y = 2'')" by code_simp
  have l1: "find_reference (''x = 1;'' @ [CHR 0x0A] @ ''y = 2'') = None" by code_simp
  have l2: "\<not> endsWith (''x = 1;'' @ [CHR 0x0A] @ ''y = 2'') [CHR 0x0A]" by code_simp
  have l3: "\<not> contains_crlf (''x = 1;'' @ [CHR 0x0A] @ ''y = 2'')" by code_simp
  from updatedContent_line_ending [OF c1 c2, of "''main.js.map''"] c3
       updatedContent_line_ending [OF l1 l2, of "''main.js.map''"] l3
  show ?thesis by simp
qed

text \<open>
  The other branches: an existing reference is pointed at the new map, and a content
  that ends in a line feed gets the comment without another line break.
\<close>

lemma updatedContent_existing_reference:
  "updatedContent (''x = 1;'' @ [CHR 0x0A] @ ''//# sourceMappingURL=old.map'' @ [CHR 0x0A]) ''main.js.map''
     = ''x = 1;'' @ [CHR 0x0A] @ ''//# sourceMappingURL=main.js.map'' @ [CHR 0x0A]"
  by code_simp

lemma updatedContent_trailing_newline:
  assumes "find_reference fileContent = None" and "endsWith fileContent [CHR 0x0A]"
  shows "updatedContent fileContent filename = fileContent @ ''//# sourceMappingURL='' @ filename"
  using assms by (simp add: updatedContent_def replace_reference_none reference_prefix_def)

text \<open>What \<open>addSourcemap\<close> writes to \<open>dest\<close> when it copies from \<open>src\<close>.\<close>

lemma addSourcemap_body_writes:
  assumes "addSourcemap_body E src dest True w = (Inr (), w')"
    and "files w src = Some fileContent" and "src \<noteq> dest @ ''.map''"
  shows "files w' dest = Some (updatedContent fileContent (path_basename E (dest @ ''.map'')))"
  using assms
  by (auto simp add: addSourcemap_body_def Let_def io_bind_def readFile_def writeFile_def log_msg_def
      createIdentitySourcemap_def io_return_def io_throw_def split: option.splits sum.splits if_splits prod.splits)

subsection \<open>The proxy routes\<close>

lemma glob_below_prefix: "glob_below (p @ ''/**'') path \<longleftrightarrow> starts_with path (p @ ''/'')"
  by (simp add: glob_below_def endsWith_def starts_with_def)

lemma context_match_browser_sync:
  "context_match (patterns (browser_sync_proxy E)) path \<longleftrightarrow>
     starts_with path (''/adapter/'' @ adapterName E @ ''/'') \<or> starts_with path ''/browser-sync/''"
  using glob_below_prefix [of "''/adapter/'' @ adapterName E" path]
    glob_below_prefix [of "''/browser-sync''" path]
  by (simp add: context_match_def browser_sync_proxy_def adminPattern_def starts_with_def)

lemma context_match_admin:
  "context_match (patterns (admin_proxy E)) path \<longleftrightarrow>
     \<not> context_match (patterns (browser_sync_proxy E)) path"
  using glob_below_prefix [of "''/adapter/'' @ adapterName E" path]
    glob_below_prefix [of "''/browser-sync''" path]
  by (simp add: context_match_def browser_sync_proxy_def admin_proxy_def adminPattern_def starts_with_def)

text \<open>An expression without special characters matches its own text, and only that.\<close>

lemma is_quantifier_special: "is_quantifier c \<Longrightarrow> regex_special c"
  by (auto simp add: is_quantifier_def regex_special_def)

lemma parse_items_plain:
  "\<forall>c \<in> set lit. \<not> regex_special c \<Longrightarrow> parse_items lit = Some (map (\<lambda>c. One (Lit c)) lit)"
proof (induction lit rule: parse_items.induct)
  case 1
  then show ?case by simp
next
  case (2 c)
  then have "atom_of c = Some (Lit c)" by (auto simp add: atom_of_def regex_special_def)
  then show ?case by simp
next
  case (3 c q rest)
  from "3.prems" have c: "atom_of c = Some (Lit c)" by (auto simp add: atom_of_def regex_special_def)
  from "3.prems" have q: "\<not> is_quantifier q" using is_quantifier_special [of q] by auto
  from "3.prems" have r: "\<forall>c \<in> set (q # rest). \<not> regex_special c" by simp
  show ?case using "3.IH"(2) [OF c q r] c q by simp
qed

lemma match_items_plain:
  "match_items (map (\<lambda>c. One (Lit c)) lit) s = (if starts_with s lit then Some (length lit) else None)"
proof (induction lit arbitrary: s)
  case Nil
  then show ?case by (simp add: starts_with_def)
next
  case (Cons c lit)
  show ?case
  proof (cases s)
    case Nil
    then show ?thesis by (simp add: starts_with_def)
  next
    case (Cons d ds)
    then show ?thesis using Cons.IH [of ds] by (auto simp add: starts_with_def)
  qed
qed

lemma plain_adapter_key:
  assumes "\<forall>c \<in> set name. \<not> regex_special c"
  shows "parse_key (''^/adapter/'' @ name @ ''/'')
           = Some (map (\<lambda>c. One (Lit c)) (''/adapter/'' @ name @ ''/''))"
proof -
  have "\<forall>c \<in> set (''/adapter/'' @ name @ ''/''). \<not> regex_special c"
    using assms by (auto simp add: regex_special_def)
  then have "parse_items (''/adapter/'' @ name @ ''/'')
               = Some (map (\<lambda>c. One (Lit c)) (''/adapter/'' @ name @ ''/''))"
    by (rule parse_items_plain)
  then show ?thesis by (simp add: parse_key_def)
qed

text \<open>
  The routes for an adapter name without characters that are special in a regular
  expression: a request path below \<open>/adapter/<adapterName>/\<close> goes to the
  browser-sync origin with that prefix replaced by \<open>/\<close>, a path below
  \<open>/browser-sync/\<close> goes to the browser-sync origin as it is, and every other path
  goes to the admin origin as it is. The option \<open>ws\<close> is off on the first route and on
  on the second.
\<close>

lemma proxy_routes_plain_name:
  assumes "\<forall>c \<in> set (adapterName E). \<not> regex_special c"
  shows "forward (routes E) path =
          (if starts_with path (''/adapter/'' @ adapterName E @ ''/'')
             then Proxied ''http://localhost:18882''
                    (''/'' @ drop (length (''/adapter/'' @ adapterName E @ ''/'')) path)
           else if starts_with path ''/browser-sync/''
             then Proxied ''http://localhost:18882'' path
           else Proxied ''http://localhost:18881'' path)
       \<and> map ws (routes E) = [False, True]"
proof -
  have ws: "map ws (routes E) = [False, True]"
    by (simp add: routes_def browser_sync_proxy_def admin_proxy_def)
  have nb: "\<not> starts_with path (''/adapter/'' @ adapterName E @ ''/'')" if "starts_with path ''/browser-sync/''"
  proof
    assume a: "starts_with path (''/adapter/'' @ adapterName E @ ''/'')"
    have "take 2 path = ''/b''" using starts_with_take [OF that, of 2] by simp
    moreover have "take 2 path = ''/a''" using starts_with_take [OF a, of 2] by simp
    ultimately show False by simp
  qed
  have rw: "rewritePath (pathRewrite (browser_sync_proxy E)) path =
              (if starts_with path (''/adapter/'' @ adapterName E @ ''/'')
               then Some (''/'' @ drop (length (''/adapter/'' @ adapterName E @ ''/'')) path)
               else Some path)"
    using plain_adapter_key [OF assms] match_items_plain [of "''/adapter/'' @ adapterName E @ ''/''" path]
    by (simp add: browser_sync_proxy_def)
  show ?thesis
  proof (cases "context_match (patterns (browser_sync_proxy E)) path")
    case True
    then have "forward (routes E) path =
                 (case rewritePath (pathRewrite (browser_sync_proxy E)) path of
                    None \<Rightarrow> Unmodelled
                  | Some p \<Rightarrow> Proxied (target (browser_sync_proxy E)) p)"
      by (simp add: routes_def)
    moreover have "target (browser_sync_proxy E) = ''http://localhost:18882''"
      by (simp add: browser_sync_proxy_def HIDDEN_BROWSER_SYNC_PORT_def)
    ultimately show ?thesis using True context_match_browser_sync [of E path] ws nb rw
      by auto
  next
    case False
    then have "context_match (patterns (admin_proxy E)) path" by (simp add: context_match_admin)
    with False have "forward (routes E) path = Proxied ''http://localhost:18881'' path"
      by (simp add: routes_def admin_proxy_def HIDDEN_ADMIN_PORT_def)
    with False show ?thesis using context_match_browser_sync [of E path] ws by auto
  qed
qed

lemma proxy_routes_demo:
  "forward (routes demo_env) ''/adapter/demo/dashboard.html''
     = Proxied ''http://localhost:18882'' ''/dashboard.html''
   \<and> forward (routes demo_env) ''/browser-sync/socket.io/''
     = Proxied ''http://localhost:18882'' ''/browser-sync/socket.io/''
   \<and> forward (routes demo_env) ''/''
     = Proxied ''http://localhost:18881'' ''/''
   \<and> forward (routes demo_env) ''/socket.io/''
     = Proxied ''http://localhost:18881'' ''/socket.io/''
   \<and> map ws (routes demo_env) = [False, True]"
proof -
  have n: "adapterName demo_env = ''demo''" by (simp add: demo_env_def)
  have h1: "\<forall>c \<in> set (adapterName demo_env). \<not> regex_special c"
    by (simp add: n regex_special_def)
  note t = proxy_routes_plain_name [OF h1]
  show ?thesis
    using t [of "''/adapter/demo/dashboard.html''"] t [of "''/browser-sync/socket.io/''"]
      t [of "''/''"] t [of "''/socket.io/''"]
    by (simp add: n starts_with_def)
qed

text \<open>
  Claim C4. The claim fails on the code for an adapter name with a character that is
  special in a regular expression. For the adapter \<open>a+b\<close> the request path
  \<open>/adapter/a+b/dashboard.html\<close> is of the form \<open>/adapter/<adapterName>/<rest>\<close> and
  the first route takes it, but the key \<open>^/adapter/a+b/\<close> of \<open>pathRewrite\<close> asks for
  one or more \<open>a\<close> and then \<open>b\<close>: it does not match the path, and the path goes to
  the browser-sync origin with the prefix still on it. A path to the admin origin is
  still forwarded as it is, and \<open>ws\<close> is still off on the first route and on on the
  second.
\<close>

theorem proxy_routes_unescaped_name:
  "adapterName plus_env = ''a+b''
   \<and> pathRewrite (browser_sync_proxy plus_env) = [(''^/adapter/a+b/'', ''/'')]
   \<and> forward (routes plus_env) ''/adapter/a+b/dashboard.html''
       = Proxied ''http://localhost:18882'' ''/adapter/a+b/dashboard.html''
   \<and> forward (routes plus_env) ''/adapter/a+b/dashboard.html''
       \<noteq> Proxied ''http://localhost:18882'' ''/dashboard.html''
   \<and> forward (routes plus_env) ''/socket.io/'' = Proxied ''http://localhost:18881'' ''/socket.io/''
   \<and> map ws (routes plus_env) = [False, True]"
  by code_simp

end
